theory Spec2Isabelle
  imports Main
begin

section \<open>Clause-type encodings (src/lib/api.ts)\<close>

text \<open>
  \<^verbatim>\<open>clauseType.replace(/_/g, '-')\<close> and \<^verbatim>\<open>clauseType.replace(/-/g, '_')\<close>: a global
  replacement of one character by another is a map over the characters of the string.
\<close>

definition convertClauseTypeToFrontendFormat :: "string \<Rightarrow> string" where
  "convertClauseTypeToFrontendFormat clauseType =
     map (\<lambda>c. if c = CHR ''_'' then CHR ''-'' else c) clauseType"

definition convertClauseTypeToBackendFormat :: "string \<Rightarrow> string" where
  "convertClauseTypeToBackendFormat clauseType =
     map (\<lambda>c. if c = CHR ''-'' then CHR ''_'' else c) clauseType"

section \<open>Strings and numbers of the host language\<close>

text \<open>
  Offsets and confidences are modelled as integers; \<open>number_toString\<close> is the decimal
  rendering that a template literal or \<^verbatim>\<open>toString()\<close> gives an integer.
\<close>

definition digit_char :: "nat \<Rightarrow> char" where
  "digit_char d = ''0123456789'' ! d"

fun string_of_nat :: "nat \<Rightarrow> string" where
  "string_of_nat n =
     (if n < 10 then [digit_char n] else string_of_nat (n div 10) @ [digit_char (n mod 10)])"

declare string_of_nat.simps [simp del]

definition number_toString :: "int \<Rightarrow> string" where
  "number_toString i =
     (if i < 0 then CHR ''-'' # string_of_nat (nat (- i)) else string_of_nat (nat i))"

text \<open>
  \<^verbatim>\<open>s.substring(a, b)\<close>: both indices are clamped to \<open>[0, length]\<close> and swapped when
  \<open>a > b\<close>; \<^verbatim>\<open>s.substring(a)\<close> runs to the end of the string.
\<close>

definition substring :: "string \<Rightarrow> int \<Rightarrow> int \<Rightarrow> string" where
  "substring s indexStart indexEnd =
     (let n = int (length s);
          a = max 0 (min indexStart n);
          b = max 0 (min indexEnd n)
      in take (nat (max a b - min a b)) (drop (nat (min a b)) s))"

definition substring_from :: "string \<Rightarrow> int \<Rightarrow> string" where
  "substring_from s indexStart = drop (nat (max 0 (min indexStart (int (length s))))) s"

section \<open>Data model (src/components/document-viewer.tsx)\<close>

record ClausePosition =
  pstart :: int
  pend :: int

record annotation =
  type :: string
  selected_text :: string
  reason :: string
  confidence :: int
  position :: "ClausePosition option"
  user :: bool

record clause_info =
  name :: string
  color :: string

type_synonym clause_catalog = "string \<rightharpoonup> clause_info"

text \<open>
  A node of the parsed markup: a text node, or an element with its tag, its attributes
  in order, and its children.
\<close>

datatype node = TextNode string | Element string "(string \<times> string) list" "node list"

fun textContent :: "node \<Rightarrow> string" where
  "textContent (TextNode t) = t"
| "textContent (Element tag as cs) = concat (map textContent cs)"

fun getAttribute :: "node \<Rightarrow> string \<Rightarrow> string option" where
  "getAttribute (TextNode t) k = None"
| "getAttribute (Element tag as cs) k = map_of as k"

text \<open>
  The overlay pass reads and rewrites only the elements matched by
  \<^verbatim>\<open>span[data-start][data-end]\<close>. The parsed document is modelled as the list of
  these elements in document order (the result of \<^verbatim>\<open>querySelectorAll\<close>), under the
  reading of the specification that they are leaves: no matched element lies inside
  another one. Each carries its attributes, the integers that \<^verbatim>\<open>parseInt\<close> reads
  from \<^verbatim>\<open>data-start\<close> and \<^verbatim>\<open>data-end\<close>, and its children. The elements that a splice
  creates (highlight spans, tooltips) carry no \<^verbatim>\<open>data-start\<close>, so the list keeps
  its length and order through the pass, and re-querying it after a splice yields the
  replaced elements at the same places.
\<close>

record span_element =
  attributes :: "(string \<times> string) list"
  data_start :: int
  data_end :: int
  childNodes :: "node list"

definition element_textContent :: "span_element \<Rightarrow> string" where
  "element_textContent el = concat (map textContent (childNodes el))"

record document =
  content :: "span_element list"
  content_type :: "string option"
  clauses :: "annotation list"

text \<open>Every \<^verbatim>\<open>console.log\<close> call of \<^verbatim>\<open>processContent\<close>, with its arguments.\<close>

datatype console_log =
    AnnotationsToHighlight nat
  | AnnotationMissingPosition string string
  | LookingToHighlight int int string
  | InvalidRelativePositions int int nat
  | NoTextToHighlight
  | FoundTextToHighlight string
  | CouldNotFindElement int int

section \<open>The highlighted span\<close>

definition highlight_className :: "annotation \<Rightarrow> string" where
  "highlight_className a =
     ''clause-highlight cursor-pointer transition-colors relative group '' @
     (if user a then ''user-annotation'' else '''')"

definition highlight_style :: "clause_info \<Rightarrow> string" where
  "highlight_style clauseInfo =
     ''background-color: '' @ color clauseInfo @ ''25; border-bottom: 2px solid '' @
     color clauseInfo @ ''; box-shadow: 0 1px 0 0 '' @ color clauseInfo @ ''30;''"

definition annotationIdentifier :: "annotation \<Rightarrow> int \<Rightarrow> string" where
  "annotationIdentifier a start = type a @ ''-'' @ number_toString start"

definition highlight_attributes :: "clause_info \<Rightarrow> annotation \<Rightarrow> int \<Rightarrow> (string \<times> string) list" where
  "highlight_attributes clauseInfo a start =
     [(''class'', highlight_className a),
      (''style'', highlight_style clauseInfo),
      (''data-clause-type'', type a),
      (''data-annotation-id'', annotationIdentifier a start)]"

text \<open>
  The tooltip of Case 1. Its \<^verbatim>\<open>innerHTML\<close> is two \<^verbatim>\<open>div\<close>s holding the clause name and
  the rounded confidence (the name is taken to be plain text); the arrow is appended
  after them.
\<close>

definition tooltip :: "clause_info \<Rightarrow> annotation \<Rightarrow> node" where
  "tooltip clauseInfo a =
     Element ''div''
       [(''class'', ''absolute invisible opacity-0 group-hover:visible group-hover:opacity-100 z-50 transition-opacity duration-200 bottom-full left-1/2 transform -translate-x-1/2 mb-2 px-3 py-2 text-xs rounded shadow-lg bg-white dark:bg-slate-800 text-slate-800 dark:text-slate-200 border border-slate-200 dark:border-slate-700 whitespace-nowrap'')]
       [Element ''div'' [(''class'', ''font-semibold'')] [TextNode (name clauseInfo)],
        Element ''div'' [(''class'', ''text-slate-500 dark:text-slate-400'')]
          [TextNode (number_toString (confidence a) @ ''% confidence'')],
        Element ''div''
          [(''class'', ''absolute left-1/2 transform -translate-x-1/2 -bottom-1 w-2 h-2 rotate-45 bg-white dark:bg-slate-800 border-r border-b border-slate-200 dark:border-slate-700'')]
          []]"

text \<open>Case 1 builds the span with \<^verbatim>\<open>data-confidence\<close> and the tooltip.\<close>

definition contained_highlightSpan :: "clause_info \<Rightarrow> annotation \<Rightarrow> int \<Rightarrow> string \<Rightarrow> node" where
  "contained_highlightSpan clauseInfo a start highlightedText =
     Element ''span''
       (highlight_attributes clauseInfo a start @
        [(''data-confidence'', number_toString (confidence a))])
       [TextNode highlightedText, tooltip clauseInfo a]"

text \<open>Cases 2 and 3 build it with neither.\<close>

definition overlap_highlightSpan :: "clause_info \<Rightarrow> annotation \<Rightarrow> int \<Rightarrow> string \<Rightarrow> node" where
  "overlap_highlightSpan clauseInfo a start highlightedText =
     Element ''span'' (highlight_attributes clauseInfo a start) [TextNode highlightedText]"

definition text_if_nonempty :: "string \<Rightarrow> node list" where
  "text_if_nonempty t = (if t = [] then [] else [TextNode t])"

section \<open>Classification of one element against one annotation\<close>

datatype overlap = Contained | LeftOverlap | RightOverlap

text \<open>The guard of line 182.\<close>

definition overlaps :: "int \<Rightarrow> int \<Rightarrow> int \<Rightarrow> int \<Rightarrow> bool" where
  "overlaps start end elStart elEnd \<longleftrightarrow>
     (start \<ge> elStart \<and> start < elEnd) \<or> (end > elStart \<and> end \<le> elEnd) \<or>
     (start \<le> elStart \<and> end \<ge> elEnd)"

text \<open>The branch taken inside the guard: the \<^verbatim>\<open>if\<close> / \<^verbatim>\<open>else if\<close> chain of lines 184, 248, 280.\<close>

definition classify :: "int \<Rightarrow> int \<Rightarrow> int \<Rightarrow> int \<Rightarrow> overlap option" where
  "classify start end elStart elEnd =
     (if overlaps start end elStart elEnd then
        if start \<ge> elStart \<and> end \<le> elEnd then Some Contained
        else if elStart \<le> start \<and> elEnd \<le> end \<and> elEnd > start then Some LeftOverlap
        else if elStart \<ge> start \<and> elStart < end \<and> elEnd \<ge> end then Some RightOverlap
        else None
      else None)"

section \<open>One iteration of the loop over the matched elements\<close>

text \<open>
  The body of \<^verbatim>\<open>for (const element of elements)\<close> for one element: the element as
  it stands in the tree afterwards (the original one, or the shallow clone with its new
  children that \<^verbatim>\<open>replaceChild\<close> puts in its place), whether the iteration sets
  \<^verbatim>\<open>foundMatch\<close>, and what it logs. The identifier embedded in the span is built
  from \<^verbatim>\<open>annotation.position.start\<close>, which is \<open>start\<close>.
\<close>

definition process_element ::
  "clause_info \<Rightarrow> annotation \<Rightarrow> int \<Rightarrow> int \<Rightarrow> span_element \<Rightarrow> span_element \<times> bool \<times> console_log list" where
  "process_element clauseInfo a start end element =
     (let elStart = data_start element; elEnd = data_end element in
      case classify start end elStart elEnd of
        None \<Rightarrow> (element, False, [])
      | Some Contained \<Rightarrow>
          (let textContent = element_textContent element;
               relativeStart = start - elStart;
               relativeEnd = end - elStart
           in if relativeEnd \<le> relativeStart \<or> relativeStart \<ge> int (length textContent) then
                (element, False,
                 [InvalidRelativePositions relativeStart relativeEnd (length textContent)])
              else
                (let beforeText = substring textContent 0 relativeStart;
                     highlightedText = substring textContent relativeStart relativeEnd;
                     afterText = substring_from textContent relativeEnd
                 in if highlightedText = [] then (element, False, [NoTextToHighlight])
                    else
                      (element\<lparr>childNodes :=
                          text_if_nonempty beforeText @
                          [contained_highlightSpan clauseInfo a start highlightedText] @
                          text_if_nonempty afterText\<rparr>,
                       True, [FoundTextToHighlight highlightedText])))
      | Some LeftOverlap \<Rightarrow>
          (let textContent = element_textContent element;
               relativeStart = max 0 (start - elStart);
               beforeText = substring textContent 0 relativeStart;
               highlightedText = substring_from textContent relativeStart
           in if highlightedText \<noteq> [] then
                (element\<lparr>childNodes :=
                    text_if_nonempty beforeText @
                    [overlap_highlightSpan clauseInfo a start highlightedText]\<rparr>,
                 True, [])
              else (element, False, []))
      | Some RightOverlap \<Rightarrow>
          (let textContent = element_textContent element;
               relativeEnd = end - elStart;
               highlightedText = substring textContent 0 relativeEnd;
               afterText = substring_from textContent relativeEnd
           in if highlightedText \<noteq> [] then
                (element\<lparr>childNodes :=
                    [overlap_highlightSpan clauseInfo a start highlightedText] @
                    text_if_nonempty afterText\<rparr>,
                 True, [])
              else (element, False, [])))"

text \<open>
  The loop itself, in document order. It has no \<^verbatim>\<open>break\<close>: every element of the list is
  visited, \<^verbatim>\<open>foundMatch\<close> accumulates.
\<close>

fun highlight_elements ::
  "clause_info \<Rightarrow> annotation \<Rightarrow> int \<Rightarrow> int \<Rightarrow> span_element list \<Rightarrow> bool \<Rightarrow>
   span_element list \<times> bool \<times> console_log list" where
  "highlight_elements clauseInfo a start end [] foundMatch = ([], foundMatch, [])"
| "highlight_elements clauseInfo a start end (element # elements) foundMatch =
     (case process_element clauseInfo a start end element of
        (element', found, logs) \<Rightarrow>
          (case highlight_elements clauseInfo a start end elements (foundMatch \<or> found) of
             (elements', foundMatch', logs') \<Rightarrow> (element' # elements', foundMatch', logs @ logs')))"

section \<open>One annotation, and the whole pass\<close>

text \<open>The callback of \<^verbatim>\<open>visibleAnnotations.forEach\<close>, on the current state of the tree.\<close>

definition process_annotation ::
  "clause_catalog \<Rightarrow> span_element list \<Rightarrow> annotation \<Rightarrow> span_element list \<times> console_log list" where
  "process_annotation catalog doc a =
     (case position a of
        None \<Rightarrow> (doc, [AnnotationMissingPosition (type a) (substring (selected_text a) 0 50)])
      | Some pos \<Rightarrow>
          (case catalog (convertClauseTypeToFrontendFormat (type a)) of
             None \<Rightarrow> (doc, [])
           | Some clauseInfo \<Rightarrow>
               (let start = pstart pos; end = pend pos in
                case highlight_elements clauseInfo a start end doc False of
                  (doc', foundMatch, logs) \<Rightarrow>
                    (doc',
                     [LookingToHighlight start end (substring (selected_text a) 0 50)] @ logs @
                     (if \<not> foundMatch then [CouldNotFindElement start end] else [])))))"

fun process_annotations ::
  "clause_catalog \<Rightarrow> annotation list \<Rightarrow> span_element list \<Rightarrow> span_element list \<times> console_log list" where
  "process_annotations catalog [] doc = (doc, [])"
| "process_annotations catalog (a # as) doc =
     (case process_annotation catalog doc a of
        (doc', logs) \<Rightarrow>
          (case process_annotations catalog as doc' of
             (doc'', logs') \<Rightarrow> (doc'', logs @ logs')))"

text \<open>
  The filter-passing annotations, detected ones before the user's, in a stable sort by
  \<^verbatim>\<open>position?.start || 0\<close>.
\<close>

definition sort_start :: "annotation \<Rightarrow> int" where
  "sort_start a = (case position a of None \<Rightarrow> 0 | Some pos \<Rightarrow> pstart pos)"

definition visibleAnnotations :: "document \<Rightarrow> string list \<Rightarrow> annotation list \<Rightarrow> annotation list" where
  "visibleAnnotations document activeFilters userAnnotations =
     sort_key sort_start
       (filter (\<lambda>clause. convertClauseTypeToFrontendFormat (type clause) \<in> set activeFilters)
          (clauses document) @
        filter (\<lambda>anno. convertClauseTypeToFrontendFormat (type anno) \<in> set activeFilters)
          userAnnotations)"

text \<open>
  \<^verbatim>\<open>processContent\<close>: the elements after the pass, and the log. Content that is not
  \<^verbatim>\<open>html\<close> is returned as it is. The page-visibility step touches only the style of the
  \<^verbatim>\<open>.page\<close> containers, which are not part of this model.
\<close>

definition processContent ::
  "document \<Rightarrow> clause_catalog \<Rightarrow> string list \<Rightarrow> annotation list \<Rightarrow>
   span_element list \<times> console_log list" where
  "processContent document catalog activeFilters userAnnotations =
     (if content_type document = Some ''html'' then
        (let visible = visibleAnnotations document activeFilters userAnnotations in
         case process_annotations catalog visible (content document) of
           (doc, logs) \<Rightarrow> (doc, AnnotationsToHighlight (length visible) # logs))
      else (content document, []))"

section \<open>Click resolution\<close>

text \<open>The tokens of a \<^verbatim>\<open>class\<close> attribute, split at spaces.\<close>

fun class_tokens :: "string \<Rightarrow> string \<Rightarrow> string list" where
  "class_tokens [] w = (if w = [] then [] else [w])"
| "class_tokens (c # cs) w =
     (if c = CHR '' '' then (if w = [] then class_tokens cs [] else w # class_tokens cs [])
      else class_tokens cs (w @ [c]))"

definition classList :: "node \<Rightarrow> string list" where
  "classList n = (case getAttribute n ''class'' of None \<Rightarrow> [] | Some s \<Rightarrow> class_tokens s [])"

text \<open>
  The \<^verbatim>\<open>onClick\<close> handler: the annotation handed to \<^verbatim>\<open>onAnnotationClick\<close>, if any. An
  annotation without position renders its start as \<^verbatim>\<open>undefined\<close> in the template.
\<close>

definition onClick :: "document \<Rightarrow> annotation list \<Rightarrow> node \<Rightarrow> annotation option" where
  "onClick document userAnnotations target =
     (if ''clause-highlight'' \<in> set (classList target) then
        (case getAttribute target ''data-clause-type'' of
           None \<Rightarrow> None
         | Some clauseType \<Rightarrow>
             find (\<lambda>clause. type clause = clauseType \<and>
                     Some (clauseType @ ''-'' @
                           (case position clause of
                              None \<Rightarrow> ''undefined''
                            | Some pos \<Rightarrow> number_toString (pstart pos))) =
                     getAttribute target ''data-annotation-id'')
               (clauses document @ userAnnotations))
      else None)"
section \<open>The caller's user annotations (src/app/documents/[id]/page.tsx)\<close>

text \<open>\<^verbatim>\<open>addUserAnnotation\<close>: the annotation appended to the user's list for a selection.\<close>

definition addUserAnnotation :: "string \<Rightarrow> int \<Rightarrow> int \<Rightarrow> annotation" where
  "addUserAnnotation text startPos endPos =
     \<lparr>type = ''review-comments'', selected_text = text, reason = ''User annotation'',
      confidence = 100, position = Some \<lparr>pstart = startPos, pend = endPos\<rparr>, user = True\<rparr>"


section \<open>Notions used to state the properties\<close>

text \<open>
  The slice \<open>s[i : j]\<close> of the specification, for indices that are not negative; the
  element children of a matched span (after a splice: its highlighted span); an annotation
  that cannot be rendered (no position, or an empty or reversed range); spans whose ranges
  follow one another without overlap, in document order.
\<close>

definition slice :: "string \<Rightarrow> int \<Rightarrow> int \<Rightarrow> string" where
  "slice s i j = take (nat j - nat i) (drop (nat i) s)"

definition element_children :: "span_element \<Rightarrow> node list" where
  "element_children el =
     filter (\<lambda>n. case n of TextNode t \<Rightarrow> False | Element tag as cs \<Rightarrow> True) (childNodes el)"

definition ill_formed :: "annotation \<Rightarrow> bool" where
  "ill_formed a \<longleftrightarrow> (case position a of None \<Rightarrow> True | Some pos \<Rightarrow> pend pos \<le> pstart pos)"

definition ranges_in_order :: "span_element list \<Rightarrow> bool" where
  "ranges_in_order doc \<longleftrightarrow> sorted_wrt (\<lambda>x y. data_end x \<le> data_start y) doc"

section \<open>Concrete documents and annotations\<close>

text \<open>
  A catalog with two clause types, a span holding one text node with given offsets, a
  detected annotation with and without position, and small documents used to evaluate the
  pass.
\<close>

definition example_catalog :: clause_catalog where
  "example_catalog =
     [''governing-law'' \<mapsto> \<lparr>name = ''Governing Law'', color = ''#64748B''\<rparr>,
      ''review-comments'' \<mapsto> \<lparr>name = ''Review Comments'', color = ''#F97316''\<rparr>]"

definition governing_law_info :: clause_info where
  "governing_law_info = \<lparr>name = ''Governing Law'', color = ''#64748B''\<rparr>"

definition text_span :: "int \<Rightarrow> int \<Rightarrow> string \<Rightarrow> span_element" where
  "text_span s e t =
     \<lparr>attributes = [(''data-start'', number_toString s), (''data-end'', number_toString e)],
      data_start = s, data_end = e, childNodes = [TextNode t]\<rparr>"

definition detected :: "string \<Rightarrow> int \<Rightarrow> int \<Rightarrow> string \<Rightarrow> annotation" where
  "detected ty s e t =
     \<lparr>type = ty, selected_text = t, reason = ''detected'', confidence = 90,
      position = Some \<lparr>pstart = s, pend = e\<rparr>, user = False\<rparr>"

definition review_comments_info :: clause_info where
  "review_comments_info = \<lparr>name = ''Review Comments'', color = ''#F97316''\<rparr>"

definition unpositioned :: "string \<Rightarrow> string \<Rightarrow> annotation" where
  "unpositioned ty t =
     \<lparr>type = ty, selected_text = t, reason = ''detected'', confidence = 90,
      position = None, user = False\<rparr>"

definition html_document :: "span_element list \<Rightarrow> annotation list \<Rightarrow> document" where
  "html_document spans detections =
     \<lparr>content = spans, content_type = Some ''html'', clauses = detections\<rparr>"

definition agreement_spans :: "span_element list" where
  "agreement_spans = [text_span 0 51 ''This agreement is governed by the laws of Delaware.'']"

definition lorem_spans :: "span_element list" where
  "lorem_spans = [text_span 0 5 ''Lorem'', text_span 5 10 ''ipsum'', text_span 10 15 ''dolor'']"

definition delaware_spans :: "span_element list" where
  "delaware_spans = [text_span 0 10 ''The laws o'', text_span 10 20 ''f Delaware'']"

definition repeated_spans :: "span_element list" where
  "repeated_spans = [text_span 0 10 ''The laws o'', text_span 0 10 ''The laws o'']"

section \<open>Substrings, slices and the rendering of numbers\<close>

lemma substring_prefix: "0 \<le> k \<Longrightarrow> substring s 0 k = take (nat k) s"
  by (simp add: substring_def Let_def min_def max_def)

lemma substring_between:
  "0 \<le> i \<Longrightarrow> i \<le> j \<Longrightarrow> substring s i j = take (nat (j - i)) (drop (nat i) s)"
  by (auto simp: substring_def Let_def min_def max_def)

lemma substring_from_drop: "0 \<le> i \<Longrightarrow> substring_from s i = drop (nat i) s"
  by (auto simp: substring_from_def min_def max_def)

lemma take_middle_drop:
  "i \<le> j \<Longrightarrow> take i s @ take (j - i) (drop i s) @ drop j s = s"
proof -
  assume "i \<le> j"
  then have "drop j s = drop (j - i) (drop i s)" by simp
  then have "take (j - i) (drop i s) @ drop j s = drop i s"
    by (simp only: append_take_drop_id)
  then show ?thesis by simp
qed

lemma digit_char_inj: "a < 10 \<Longrightarrow> b < 10 \<Longrightarrow> digit_char a = digit_char b \<Longrightarrow> a = b"
proof -
  assume "a < 10" "b < 10" "digit_char a = digit_char b"
  moreover have "distinct ''0123456789''" by simp
  ultimately show "a = b"
    unfolding digit_char_def by (simp add: nth_eq_iff_index_eq)
qed

lemma string_of_nat_nonempty: "string_of_nat n \<noteq> []" "[] \<noteq> string_of_nat n"
  by (subst string_of_nat.simps, simp)+

lemma string_of_nat_inj: "string_of_nat n = string_of_nat m \<Longrightarrow> n = m"
proof (induction n arbitrary: m rule: string_of_nat.induct)
  case (1 n)
  show ?case
  proof (cases "n < 10")
    case True
    then have sn: "string_of_nat n = [digit_char n]" by (subst string_of_nat.simps) simp
    show ?thesis
    proof (cases "m < 10")
      case True
      then have "string_of_nat m = [digit_char m]" by (subst string_of_nat.simps) simp
      with sn "1.prems" \<open>n < 10\<close> True show ?thesis by (simp add: digit_char_inj)
    next
      case False
      then have "string_of_nat m = string_of_nat (m div 10) @ [digit_char (m mod 10)]"
        by (subst string_of_nat.simps) simp
      with sn "1.prems" show ?thesis by (simp add: string_of_nat_nonempty)
    qed
  next
    case False
    then have sn: "string_of_nat n = string_of_nat (n div 10) @ [digit_char (n mod 10)]"
      by (subst string_of_nat.simps) simp
    show ?thesis
    proof (cases "m < 10")
      case True
      then have "string_of_nat m = [digit_char m]" by (subst string_of_nat.simps) simp
      with sn "1.prems" show ?thesis by (simp add: string_of_nat_nonempty)
    next
      case mf: False
      then have "string_of_nat m = string_of_nat (m div 10) @ [digit_char (m mod 10)]"
        by (subst string_of_nat.simps) simp
      with sn "1.prems" have e: "string_of_nat (n div 10) = string_of_nat (m div 10)"
        and d: "digit_char (n mod 10) = digit_char (m mod 10)" by simp_all
      from "1.IH" [OF False e] have "n div 10 = m div 10" .
      moreover from d have "n mod 10 = m mod 10" by (simp add: digit_char_inj)
      ultimately show ?thesis by (metis div_mult_mod_eq)
    qed
  qed
qed

lemma digit_char_not_special: "d < 10 \<Longrightarrow> digit_char d \<noteq> CHR ''-'' \<and> digit_char d \<noteq> CHR ''u''"
proof -
  assume "d < 10"
  then have "digit_char d \<in> set ''0123456789''" unfolding digit_char_def by (simp del: set_simps)
  then show ?thesis by auto
qed

lemma string_of_nat_hd: "\<exists>d cs. d < 10 \<and> string_of_nat n = digit_char d # cs"
proof (induction n rule: string_of_nat.induct)
  case (1 n)
  show ?case
  proof (cases "n < 10")
    case True
    then show ?thesis by (subst string_of_nat.simps) auto
  next
    case False
    from "1.IH" [OF False] obtain d cs where "d < 10" "string_of_nat (n div 10) = digit_char d # cs" by blast
    with False show ?thesis by (subst string_of_nat.simps) auto
  qed
qed

lemma number_toString_inj: "number_toString i = number_toString j \<Longrightarrow> i = j"
proof -
  assume eq: "number_toString i = number_toString j"
  have neg: "string_of_nat n \<noteq> CHR ''-'' # cs" for n cs
  proof
    assume a: "string_of_nat n = CHR ''-'' # cs"
    obtain d cs' where "d < 10" "string_of_nat n = digit_char d # cs'"
      using string_of_nat_hd by blast
    with a digit_char_not_special [of d] show False by simp
  qed
  show ?thesis
  proof (cases "i < 0")
    case True
    show ?thesis
    proof (cases "j < 0")
      case jn: True
      with True eq have "string_of_nat (nat (- i)) = string_of_nat (nat (- j))"
        by (simp add: number_toString_def)
      then have "nat (- i) = nat (- j)" by (rule string_of_nat_inj)
      with True jn show ?thesis by simp
    next
      case False
      with True eq neg [of "nat j"] show ?thesis by (simp add: number_toString_def) metis
    qed
  next
    case False
    show ?thesis
    proof (cases "j < 0")
      case True
      with False eq neg [of "nat i"] show ?thesis by (simp add: number_toString_def)
    next
      case jp: False
      with False eq have "string_of_nat (nat i) = string_of_nat (nat j)"
        by (simp add: number_toString_def)
      then have "nat i = nat j" by (rule string_of_nat_inj)
      with False jp show ?thesis by simp
    qed
  qed
qed

lemma number_toString_not_undefined: "number_toString i \<noteq> ''undefined''"
proof -
  obtain d cs where d: "d < 10" "string_of_nat (nat (if i < 0 then - i else i)) = digit_char d # cs"
    using string_of_nat_hd by blast
  show ?thesis
  proof (cases "i < 0")
    case True
    then show ?thesis by (simp add: number_toString_def)
  next
    case False
    with d digit_char_not_special [of d] show ?thesis by (auto simp: number_toString_def)
  qed
qed

lemma slice_prefix: "0 \<le> k \<Longrightarrow> slice s 0 k = take (nat k) s"
  by (simp add: slice_def)

lemma slice_suffix: "0 \<le> k \<Longrightarrow> slice s k (int (length s)) = drop (nat k) s"
  by (simp add: slice_def)

lemma slice_between: "0 \<le> i \<Longrightarrow> i \<le> j \<Longrightarrow> slice s i j = take (nat (j - i)) (drop (nat i) s)"
  by (simp add: slice_def nat_diff_distrib)

lemma slice_partition:
  "0 \<le> i \<Longrightarrow> i \<le> j \<Longrightarrow> slice s 0 i @ slice s i j @ slice s j (int (length s)) = s"
  using take_middle_drop [of "nat i" "nat j" s] by (simp add: slice_def)



lemma slice_append: "0 \<le> i \<Longrightarrow> i \<le> j \<Longrightarrow> j \<le> k \<Longrightarrow> slice D i j @ slice D j k = slice D i k"
proof -
  assume a: "0 \<le> i" "i \<le> j" "j \<le> k"
  then have "nat k - nat i = (nat j - nat i) + (nat k - nat j)" by simp
  moreover from a have "drop (nat j) D = drop (nat j - nat i) (drop (nat i) D)" by simp
  ultimately show ?thesis by (simp only: slice_def take_add)
qed

lemma slice_nonempty: "0 \<le> i \<Longrightarrow> i < j \<Longrightarrow> i < int (length D) \<Longrightarrow> slice D i j \<noteq> []"
  by (auto simp: slice_def)


section \<open>The loop and the pass, element by element\<close>

lemma highlight_elements_fst:
  "fst (highlight_elements ci a s e doc found) = map (\<lambda>el. fst (process_element ci a s e el)) doc"
  by (induction doc arbitrary: found) (simp_all add: case_prod_unfold)

lemma highlight_elements_found:
  "fst (snd (highlight_elements ci a s e doc found)) \<longleftrightarrow>
     found \<or> (\<exists>el \<in> set doc. fst (snd (process_element ci a s e el)))"
  by (induction doc arbitrary: found) (auto simp: case_prod_unfold)

lemma classify_degenerate:
  "e \<le> s \<Longrightarrow> classify s e elStart elEnd = None \<or> classify s e elStart elEnd = Some Contained"
  by (auto simp: classify_def)

lemma process_element_degenerate:
  "e \<le> s \<Longrightarrow> fst (process_element ci a s e el) = el \<and> \<not> fst (snd (process_element ci a s e el))"
  using classify_degenerate [of e s "data_start el" "data_end el"]
  by (auto simp: process_element_def Let_def)

lemma highlight_elements_degenerate:
  "e \<le> s \<Longrightarrow> fst (highlight_elements ci a s e doc False) = doc \<and>
     \<not> fst (snd (highlight_elements ci a s e doc False))"
  by (simp add: highlight_elements_fst highlight_elements_found process_element_degenerate map_idI)

lemma classify_ContainedD:
  "classify s e a b = Some Contained \<Longrightarrow> a \<le> s \<and> e \<le> b"
  by (auto simp: classify_def split: if_splits)

lemma classify_LeftOverlapD:
  "classify s e a b = Some LeftOverlap \<Longrightarrow> a \<le> s \<and> s < b \<and> b < e"
  by (auto simp: classify_def split: if_splits)

lemma classify_RightOverlapD:
  "classify s e a b = Some RightOverlap \<Longrightarrow> s < a \<and> a < e \<and> e \<le> b"
  by (auto simp: classify_def split: if_splits)

lemma classify_beyond: "s < e \<Longrightarrow> e \<le> a \<Longrightarrow> classify s e a b = None"
  by (auto simp: classify_def)

lemma process_element_None:
  "classify s e (data_start el) (data_end el) = None \<Longrightarrow> process_element ci a s e el = (el, False, [])"
  by (simp add: process_element_def)

lemma process_element_attributes:
  "attributes (fst (process_element ci a s e el)) = attributes el \<and>
   data_start (fst (process_element ci a s e el)) = data_start el \<and>
   data_end (fst (process_element ci a s e el)) = data_end el"
  by (simp add: process_element_def Let_def split: option.splits overlap.splits)

lemma process_element_Contained:
  assumes c: "classify s e (data_start el) (data_end el) = Some Contained"
    and r: "process_element ci a s e el = (el', True, logs)"
  shows "slice (element_textContent el) (s - data_start el) (e - data_start el) \<noteq> [] \<and>
     childNodes el' =
       text_if_nonempty (slice (element_textContent el) 0 (s - data_start el)) @
       [contained_highlightSpan ci a s
          (slice (element_textContent el) (s - data_start el) (e - data_start el))] @
       text_if_nonempty
         (slice (element_textContent el) (e - data_start el) (int (length (element_textContent el)))) \<and>
     slice (element_textContent el) 0 (s - data_start el) @
     slice (element_textContent el) (s - data_start el) (e - data_start el) @
     slice (element_textContent el) (e - data_start el) (int (length (element_textContent el))) =
       element_textContent el"
proof -
  let ?t = "element_textContent el"
  let ?rs = "s - data_start el"
  let ?re = "e - data_start el"
  from classify_ContainedD [OF c] have b: "0 \<le> ?rs" by simp
  from c r have ok: "?rs < ?re" "?rs < int (length ?t)"
    by (auto simp: process_element_def Let_def split: if_splits)
  from b ok have s1: "substring ?t 0 ?rs = slice ?t 0 ?rs"
    and s2: "substring ?t ?rs ?re = slice ?t ?rs ?re"
    and s3: "substring_from ?t ?re = slice ?t ?re (int (length ?t))"
    by (simp_all add: substring_prefix substring_between substring_from_drop
        slice_prefix slice_between slice_suffix)
  from b ok have cat: "slice ?t 0 ?rs @ slice ?t ?rs ?re @ slice ?t ?re (int (length ?t)) = ?t"
    by (simp add: slice_partition)
  from c r s1 s2 s3 have "slice ?t ?rs ?re \<noteq> [] \<and> childNodes el' =
       text_if_nonempty (slice ?t 0 ?rs) @ [contained_highlightSpan ci a s (slice ?t ?rs ?re)] @
       text_if_nonempty (slice ?t ?re (int (length ?t)))"
    by (auto simp: process_element_def Let_def split: if_splits)
  with cat show ?thesis by simp
qed

lemma process_element_LeftOverlap:
  assumes c: "classify s e (data_start el) (data_end el) = Some LeftOverlap"
    and r: "process_element ci a s e el = (el', True, logs)"
  shows "slice (element_textContent el) (s - data_start el) (int (length (element_textContent el))) \<noteq> [] \<and>
     childNodes el' =
       text_if_nonempty (slice (element_textContent el) 0 (s - data_start el)) @
       [overlap_highlightSpan ci a s
          (slice (element_textContent el) (s - data_start el) (int (length (element_textContent el))))] \<and>
     slice (element_textContent el) 0 (s - data_start el) @
     slice (element_textContent el) (s - data_start el) (int (length (element_textContent el))) =
       element_textContent el"
proof -
  let ?t = "element_textContent el"
  let ?rs = "s - data_start el"
  from classify_LeftOverlapD [OF c] have b: "0 \<le> ?rs" by simp
  then have m: "max 0 ?rs = ?rs" by simp
  from b have s1: "substring ?t 0 ?rs = slice ?t 0 ?rs"
    and s2: "substring_from ?t ?rs = slice ?t ?rs (int (length ?t))"
    by (simp_all add: substring_prefix substring_from_drop slice_prefix slice_suffix)
  from b have cat: "slice ?t 0 ?rs @ slice ?t ?rs (int (length ?t)) = ?t"
    by (simp add: slice_prefix slice_suffix)
  from c r s1 s2 m have "slice ?t ?rs (int (length ?t)) \<noteq> [] \<and> childNodes el' =
       text_if_nonempty (slice ?t 0 ?rs) @
       [overlap_highlightSpan ci a s (slice ?t ?rs (int (length ?t)))]"
    by (auto simp: process_element_def Let_def split: if_splits)
  with cat show ?thesis by simp
qed

lemma process_element_RightOverlap:
  assumes c: "classify s e (data_start el) (data_end el) = Some RightOverlap"
    and r: "process_element ci a s e el = (el', True, logs)"
  shows "slice (element_textContent el) 0 (e - data_start el) \<noteq> [] \<and>
     childNodes el' =
       [overlap_highlightSpan ci a s (slice (element_textContent el) 0 (e - data_start el))] @
       text_if_nonempty
         (slice (element_textContent el) (e - data_start el) (int (length (element_textContent el)))) \<and>
     slice (element_textContent el) 0 (e - data_start el) @
     slice (element_textContent el) (e - data_start el) (int (length (element_textContent el))) =
       element_textContent el"
proof -
  let ?t = "element_textContent el"
  let ?re = "e - data_start el"
  from classify_RightOverlapD [OF c] have b: "0 \<le> ?re" by simp
  from b have s1: "substring ?t 0 ?re = slice ?t 0 ?re"
    and s2: "substring_from ?t ?re = slice ?t ?re (int (length ?t))"
    by (simp_all add: substring_prefix substring_from_drop slice_prefix slice_suffix)
  from b have cat: "slice ?t 0 ?re @ slice ?t ?re (int (length ?t)) = ?t"
    by (simp add: slice_prefix slice_suffix)
  from c r s1 s2 have "slice ?t 0 ?re \<noteq> [] \<and> childNodes el' =
       [overlap_highlightSpan ci a s (slice ?t 0 ?re)] @
       text_if_nonempty (slice ?t ?re (int (length ?t)))"
    by (auto simp: process_element_def Let_def split: if_splits)
  with cat show ?thesis by simp
qed

lemma process_element_found_classified:
  "process_element ci a s e el = (el', True, logs) \<Longrightarrow>
   classify s e (data_start el) (data_end el) \<noteq> None"
  by (cases "classify s e (data_start el) (data_end el)") (simp_all add: process_element_def)




lemma process_element_children:
  assumes "process_element ci a s e el = (el', True, logs)"
  shows "\<exists>hl. element_children el' =
     [if classify s e (data_start el) (data_end el) = Some Contained
      then contained_highlightSpan ci a s hl else overlap_highlightSpan ci a s hl]"
proof (cases "classify s e (data_start el) (data_end el)")
  case None
  with process_element_found_classified [OF assms] show ?thesis by simp
next
  case (Some c)
  show ?thesis
  proof (cases c)
    case Contained
    with Some process_element_Contained [OF _ assms] show ?thesis
      by (auto simp: contained_highlightSpan_def element_children_def text_if_nonempty_def)
  next
    case LeftOverlap
    with Some process_element_LeftOverlap [OF _ assms] show ?thesis
      by (auto simp: overlap_highlightSpan_def element_children_def text_if_nonempty_def)
  next
    case RightOverlap
    with Some process_element_RightOverlap [OF _ assms] show ?thesis
      by (auto simp: overlap_highlightSpan_def element_children_def text_if_nonempty_def)
  qed
qed

lemma highlight_getAttribute:
  "getAttribute (contained_highlightSpan ci a s hl) ''data-clause-type'' = Some (type a)"
  "getAttribute (contained_highlightSpan ci a s hl) ''data-annotation-id'' = Some (annotationIdentifier a s)"
  "getAttribute (contained_highlightSpan ci a s hl) ''data-confidence'' = Some (number_toString (confidence a))"
  "getAttribute (contained_highlightSpan ci a s hl) ''class'' = Some (highlight_className a)"
  "getAttribute (overlap_highlightSpan ci a s hl) ''data-clause-type'' = Some (type a)"
  "getAttribute (overlap_highlightSpan ci a s hl) ''data-annotation-id'' = Some (annotationIdentifier a s)"
  "getAttribute (overlap_highlightSpan ci a s hl) ''class'' = Some (highlight_className a)"
  by (simp_all add: contained_highlightSpan_def overlap_highlightSpan_def highlight_attributes_def)

lemma highlight_elements_logs:
  "snd (snd (highlight_elements ci a s e doc found)) =
     concat (map (\<lambda>el. snd (snd (process_element ci a s e el))) doc)"
  by (induction doc arbitrary: found) (simp_all add: case_prod_unfold)

lemma process_element_Contained_spliced:
  assumes c: "classify s e (data_start el) (data_end el) = Some Contained"
    and lt: "s < e" and inside: "s - data_start el < int (length (element_textContent el))"
  shows "process_element ci a s e el =
     (el\<lparr>childNodes :=
          text_if_nonempty (slice (element_textContent el) 0 (s - data_start el)) @
          [contained_highlightSpan ci a s
             (slice (element_textContent el) (s - data_start el) (e - data_start el))] @
          text_if_nonempty
            (slice (element_textContent el) (e - data_start el)
               (int (length (element_textContent el))))\<rparr>,
      True,
      [FoundTextToHighlight
         (slice (element_textContent el) (s - data_start el) (e - data_start el))])"
proof -
  let ?t = "element_textContent el"
  let ?rs = "s - data_start el"
  let ?re = "e - data_start el"
  from classify_ContainedD [OF c] have b: "0 \<le> ?rs" by simp
  from lt have ok: "?rs < ?re" by simp
  from b ok have s1: "substring ?t 0 ?rs = slice ?t 0 ?rs"
    and s2: "substring ?t ?rs ?re = slice ?t ?rs ?re"
    and s3: "substring_from ?t ?re = slice ?t ?re (int (length ?t))"
    by (simp_all add: substring_prefix substring_between substring_from_drop
        slice_prefix slice_between slice_suffix)
  from b ok inside have ne: "slice ?t ?rs ?re \<noteq> []" by (simp add: slice_nonempty)
  from c ok inside s1 s2 s3 ne show ?thesis
    by (simp add: process_element_def Let_def)
qed

lemma tooltip_textContent:
  "textContent (tooltip ci a) = name ci @ number_toString (confidence a) @ ''% confidence''"
  by (simp add: tooltip_def)

text \<open>
  The text content of a span after a Case 1 splice: the text up to the end of the
  highlight, then the tooltip's clause name and confidence, then the rest. A splice in
  Case 2 or 3 has no tooltip and leaves the text content as it was.
\<close>

lemma textContent_text_if_nonempty: "concat (map textContent (text_if_nonempty t)) = t"
  by (simp add: text_if_nonempty_def)

lemma contained_splice_textContent:
  assumes "classify s e (data_start el) (data_end el) = Some Contained"
    and "process_element ci a s e el = (el', True, logs)"
  shows "element_textContent el' =
     slice (element_textContent el) 0 (e - data_start el) @
     name ci @ number_toString (confidence a) @ ''% confidence'' @
     slice (element_textContent el) (e - data_start el) (int (length (element_textContent el)))"
proof -
  let ?t = "element_textContent el"
  let ?rs = "s - data_start el"
  let ?re = "e - data_start el"
  from classify_ContainedD [OF assms(1)] have b: "0 \<le> ?rs" by simp
  from assms have lt: "?rs < ?re"
    by (auto simp: process_element_def Let_def split: if_splits)
  from b lt have j: "slice ?t 0 ?rs @ slice ?t ?rs ?re = slice ?t 0 ?re"
    by (simp add: slice_append)
  from process_element_Contained [OF assms]
  have "element_textContent el' =
     slice ?t 0 ?rs @ slice ?t ?rs ?re @
     name ci @ number_toString (confidence a) @ ''% confidence'' @
     slice ?t ?re (int (length ?t))"
    by (simp add: element_textContent_def [of el'] textContent_text_if_nonempty
        contained_highlightSpan_def tooltip_def)
  with j show ?thesis by (simp only: append_assoc [symmetric])
qed

section \<open>Annotations that leave the tree unchanged\<close>

lemma process_annotations_skip:
  assumes "\<And>a doc. P a \<Longrightarrow> fst (process_annotation catalog doc a) = doc"
  shows "fst (process_annotations catalog as doc) =
         fst (process_annotations catalog (filter (\<lambda>a. \<not> P a) as) doc)"
proof (induction as arbitrary: doc)
  case Nil
  show ?case by simp
next
  case (Cons a as)
  show ?case
  proof (cases "P a")
    case True
    from assms [OF True, of doc] Cons.IH [of doc] True show ?thesis
      by (simp add: case_prod_unfold)
  next
    case False
    with Cons.IH show ?thesis by (simp add: case_prod_unfold)
  qed
qed

lemma processContent_remove:
  assumes a: "P a"
    and inert: "\<And>b doc. P b \<Longrightarrow> fst (process_annotation catalog doc b) = doc"
  shows "fst (processContent (d\<lparr>clauses := xs @ a # ys\<rparr>) catalog activeFilters us) =
         fst (processContent (d\<lparr>clauses := xs @ ys\<rparr>) catalog activeFilters us)"
    and "fst (processContent d catalog activeFilters (us1 @ a # us2)) =
         fst (processContent d catalog activeFilters (us1 @ us2))"
proof -
  have skip: "fst (process_annotations catalog (sort_key sort_start l) doc) =
     fst (process_annotations catalog (sort_key sort_start (filter (\<lambda>b. \<not> P b) l)) doc)" for l doc
    using process_annotations_skip [of P catalog "sort_key sort_start l" doc] inert
    by (simp add: filter_sort)
  show "fst (processContent (d\<lparr>clauses := xs @ a # ys\<rparr>) catalog activeFilters us) =
         fst (processContent (d\<lparr>clauses := xs @ ys\<rparr>) catalog activeFilters us)"
    unfolding processContent_def visibleAnnotations_def Let_def
    using a
    by (simp add: split_beta) (subst skip, subst (2) skip, simp)
  show "fst (processContent d catalog activeFilters (us1 @ a # us2)) =
         fst (processContent d catalog activeFilters (us1 @ us2))"
    unfolding processContent_def visibleAnnotations_def Let_def
    using a
    by (simp add: split_beta) (subst skip, subst (2) skip, simp)
qed

lemma process_annotation_ill_formed:
  "ill_formed a \<Longrightarrow> fst (process_annotation catalog doc a) = doc"
  by (auto simp: ill_formed_def process_annotation_def Let_def case_prod_unfold
      highlight_elements_degenerate split: option.splits)

lemma process_annotation_degenerate_log:
  assumes "position a = Some pos" and "pend pos \<le> pstart pos"
    and "catalog (convertClauseTypeToFrontendFormat (type a)) = Some ci"
  shows "CouldNotFindElement (pstart pos) (pend pos) \<in> set (snd (process_annotation catalog doc a))"
  using assms highlight_elements_degenerate [of "pend pos" "pstart pos" ci a doc]
  by (simp add: process_annotation_def Let_def case_prod_unfold)

lemma process_annotation_unmapped:
  "catalog (convertClauseTypeToFrontendFormat (type a)) = None \<Longrightarrow>
   fst (process_annotation catalog doc a) = doc"
  by (simp add: process_annotation_def split: option.splits)

section \<open>Identifiers and the click handler\<close>

lemma find_append_first:
  "find P (xs @ ys) = (case find P xs of None \<Rightarrow> find P ys | Some x \<Rightarrow> Some x)"
  by (induction xs) auto

lemma highlight_has_class: "''clause-highlight'' \<in> set (class_tokens (highlight_className a) [])"
  by (cases "user a") (simp_all add: highlight_className_def)

lemma identifier_matches_iff:
  "(type b = type a \<and>
    type a @ ''-'' @ (case position b of None \<Rightarrow> ''undefined'' | Some p \<Rightarrow> number_toString (pstart p)) =
    annotationIdentifier a s) \<longleftrightarrow>
   (type b = type a \<and> map_option pstart (position b) = Some s)"
  using number_toString_not_undefined [of s]
  by (auto simp: annotationIdentifier_def dest: number_toString_inj split: option.splits)

section \<open>C1: overlapping annotations\<close>

text \<open>
  C1 states that two annotations with overlapping ranges, processed in start order in one
  pass, are both rendered in full: the splice for the first neither destroys nor shifts the
  text of the second, whose resolution runs against the tree as the first splice left it.

  The pass does not do this. Take the single span \<^verbatim>\<open>This agreement is governed by the laws of Delaware.\<close>
  at offsets 0 to 51 and the annotations \<open>[10, 30)\<close> and \<open>[20, 40)\<close>. The first splice
  is Case 1 and places the tooltip, with the clause name and the confidence, inside the
  highlighted span, so the text content of the replaced span now holds the tooltip's text
  from relative offset 30 on. The second splice reads that text content at \<open>[20, 40)\<close>
  and rebuilds the span from text nodes. The pass ends with one highlight, the second
  annotation's, over \<^verbatim>\<open>verned by Governing \<close> instead of \<^verbatim>\<open>verned by the laws o\<close>; the first
  annotation's span is gone and the tooltip's text has become text of the document.
\<close>

theorem overlapping_annotations_corrupt:
  "map childNodes
     (fst (processContent
        (html_document agreement_spans
           [detected ''governing_law'' 10 30 ''ment is governed by '',
            detected ''governing_law'' 20 40 ''verned by the laws o''])
        example_catalog [''governing-law''] [])) =
   [[TextNode ''This agreement is go'',
     contained_highlightSpan governing_law_info
       (detected ''governing_law'' 20 40 ''verned by the laws o'') 20 ''verned by Governing '',
     TextNode ''Law90% confidencethe laws of Delaware.'']]"
  by code_simp

section \<open>C2: classification of the intersecting spans\<close>

text \<open>
  What the branches do for a non-empty span that intersects a well-formed annotation range:
  they agree with the three conditions of the specification, Contained taking precedence,
  and take no branch for a span strictly inside the range.
\<close>

lemma classify_intersecting:
  assumes "start < end" and "elStart < elEnd" and "start < elEnd" and "elStart < end"
  shows "classify start end elStart elEnd =
     (if elStart \<le> start \<and> end \<le> elEnd then Some Contained
      else if elStart \<le> start then Some LeftOverlap
      else if end \<le> elEnd then Some RightOverlap
      else None)"
  using assms by (auto simp: classify_def overlaps_def)

text \<open>
  C2 states that every span whose range intersects a well-formed annotation range receives
  one of the three classifications and hence a highlight, a span lying strictly inside the
  annotation's range included.

  The guard of the loop admits such a span (its third disjunct), but none of the three
  branches takes it: Case 1 and Case 2 need \<open>elStart \<le> start\<close>, Case 3 needs
  \<open>end \<le> elEnd\<close>. With spans \<open>[0, 5)\<close>, \<open>[5, 10)\<close>, \<open>[10, 15)\<close> and the annotation
  \<open>[2, 12)\<close>, the first span is spliced as a left overlap and the third as a right
  overlap, while the middle span, all of whose text the annotation covers, is left as it
  was.
\<close>

theorem covered_span_not_highlighted:
  "overlaps 2 12 5 10 \<and> classify 2 12 5 10 = None \<and>
   map childNodes
     (fst (processContent
        (html_document lorem_spans [detected ''governing_law'' 2 12 ''rem ipsum do''])
        example_catalog [''governing-law''] [])) =
   [[TextNode ''Lo'',
     overlap_highlightSpan governing_law_info (detected ''governing_law'' 2 12 ''rem ipsum do'') 2 ''rem''],
    [TextNode ''ipsum''],
    [overlap_highlightSpan governing_law_info (detected ''governing_law'' 2 12 ''rem ipsum do'') 2 ''do'',
     TextNode ''lor'']]"
  by code_simp

section \<open>C3: the loop after a contained match\<close>

text \<open>
  C3, as the code has it: the loop visits every matched span in document order and has no
  short-circuit. For every list of spans, its result is the image of the list under the
  loop body, \<^verbatim>\<open>foundMatch\<close> is set when the body sets it for some span, and its log is
  the concatenation of the logs of the body on every span. So every span that satisfies
  the Contained condition, for \<open>start < end\<close> and a relative start inside its text, is
  spliced, whatever precedes it. When the ranges of the spans follow one another in
  document order without overlap and \<open>start < end\<close>, a span classified Contained is
  followed only by spans that the loop leaves unchanged, without a log entry and without
  setting \<^verbatim>\<open>foundMatch\<close>.
\<close>

theorem contained_no_later_splice:
  "highlight_elements ci a start end doc found =
     (map (\<lambda>el. fst (process_element ci a start end el)) doc,
      found \<or> (\<exists>el \<in> set doc. fst (snd (process_element ci a start end el))),
      concat (map (\<lambda>el. snd (snd (process_element ci a start end el))) doc)) \<and>
   (k < length doc \<and> start < end \<and>
    classify start end (data_start (doc ! k)) (data_end (doc ! k)) = Some Contained \<and>
    start - data_start (doc ! k) < int (length (element_textContent (doc ! k))) \<longrightarrow>
      fst (snd (process_element ci a start end (doc ! k))) \<and>
      map textContent (element_children (fst (highlight_elements ci a start end doc found) ! k)) =
        [slice (element_textContent (doc ! k)) (start - data_start (doc ! k))
           (end - data_start (doc ! k)) @
         name ci @ number_toString (confidence a) @ ''% confidence'']) \<and>
   (ranges_in_order doc \<and> start < end \<and> i < j \<and> j < length doc \<and>
    classify start end (data_start (doc ! i)) (data_end (doc ! i)) = Some Contained \<longrightarrow>
      process_element ci a start end (doc ! j) = (doc ! j, False, []) \<and>
      fst (highlight_elements ci a start end doc found) ! j = doc ! j)"
proof (intro conjI impI)
  show "highlight_elements ci a start end doc found =
     (map (\<lambda>el. fst (process_element ci a start end el)) doc,
      found \<or> (\<exists>el \<in> set doc. fst (snd (process_element ci a start end el))),
      concat (map (\<lambda>el. snd (snd (process_element ci a start end el))) doc))"
    using highlight_elements_fst [of ci a start "end" doc found]
      highlight_elements_found [of ci a start "end" doc found]
      highlight_elements_logs [of ci a start "end" doc found]
    by (cases "highlight_elements ci a start end doc found") simp
next
  assume h: "k < length doc \<and> start < end \<and>
    classify start end (data_start (doc ! k)) (data_end (doc ! k)) = Some Contained \<and>
    start - data_start (doc ! k) < int (length (element_textContent (doc ! k)))"
  then have pe: "process_element ci a start end (doc ! k) =
     ((doc ! k)\<lparr>childNodes :=
          text_if_nonempty (slice (element_textContent (doc ! k)) 0 (start - data_start (doc ! k))) @
          [contained_highlightSpan ci a start
             (slice (element_textContent (doc ! k)) (start - data_start (doc ! k))
                (end - data_start (doc ! k)))] @
          text_if_nonempty
            (slice (element_textContent (doc ! k)) (end - data_start (doc ! k))
               (int (length (element_textContent (doc ! k)))))\<rparr>,
      True,
      [FoundTextToHighlight
         (slice (element_textContent (doc ! k)) (start - data_start (doc ! k))
            (end - data_start (doc ! k)))])"
    by (intro process_element_Contained_spliced) simp_all
  then show "fst (snd (process_element ci a start end (doc ! k)))" by simp
  from pe h show "map textContent
      (element_children (fst (highlight_elements ci a start end doc found) ! k)) =
        [slice (element_textContent (doc ! k)) (start - data_start (doc ! k))
           (end - data_start (doc ! k)) @
         name ci @ number_toString (confidence a) @ ''% confidence'']"
    by (simp add: highlight_elements_fst element_children_def text_if_nonempty_def
        contained_highlightSpan_def tooltip_def)
next
  assume h: "ranges_in_order doc \<and> start < end \<and> i < j \<and> j < length doc \<and>
    classify start end (data_start (doc ! i)) (data_end (doc ! i)) = Some Contained"
  then have "data_end (doc ! i) \<le> data_start (doc ! j)"
    using sorted_wrt_nth_less [of "\<lambda>x y. data_end x \<le> data_start y" doc i j]
    by (simp add: ranges_in_order_def)
  moreover from h classify_ContainedD [of start "end" "data_start (doc ! i)" "data_end (doc ! i)"]
  have "end \<le> data_end (doc ! i)" by simp
  ultimately have "end \<le> data_start (doc ! j)" by simp
  with h have "classify start end (data_start (doc ! j)) (data_end (doc ! j)) = None"
    by (simp add: classify_beyond)
  then show pe: "process_element ci a start end (doc ! j) = (doc ! j, False, [])"
    by (rule process_element_None)
  with h show "fst (highlight_elements ci a start end doc found) ! j = doc ! j"
    by (simp add: highlight_elements_fst)
qed

theorem contained_no_later_splice_witness:
  "highlight_elements governing_law_info (detected ''governing_law'' 4 8 ''laws'') 4 8
     repeated_spans False =
     (map (fst \<circ> process_element governing_law_info (detected ''governing_law'' 4 8 ''laws'') 4 8)
        repeated_spans,
      True, [FoundTextToHighlight ''laws'', FoundTextToHighlight ''laws'']) \<and>
   (1::nat) < length repeated_spans \<and> (4::int) < 8 \<and>
   classify 4 8 (data_start (repeated_spans ! 1)) (data_end (repeated_spans ! 1)) = Some Contained \<and>
   4 - data_start (repeated_spans ! 1) < int (length (element_textContent (repeated_spans ! 1))) \<and>
   map textContent
     (element_children
        (fst (highlight_elements governing_law_info (detected ''governing_law'' 4 8 ''laws'') 4 8
                repeated_spans False) ! 1)) = [''lawsGoverning Law90% confidence''] \<and>
   ranges_in_order delaware_spans \<and> (0::nat) < 1 \<and> 1 < length delaware_spans \<and>
   classify 4 8 (data_start (delaware_spans ! 0)) (data_end (delaware_spans ! 0)) = Some Contained \<and>
   process_element governing_law_info (detected ''governing_law'' 4 8 ''laws'') 4 8 (delaware_spans ! 1) =
     (delaware_spans ! 1, False, []) \<and>
   fst (highlight_elements governing_law_info (detected ''governing_law'' 4 8 ''laws'') 4 8
          delaware_spans False) ! 1 = delaware_spans ! 1"
proof -
  let ?a = "detected ''governing_law'' 4 8 ''laws''"
  have h1: "(1::nat) < length repeated_spans \<and> (4::int) < 8 \<and>
    classify 4 8 (data_start (repeated_spans ! 1)) (data_end (repeated_spans ! 1)) = Some Contained \<and>
    4 - data_start (repeated_spans ! 1) < int (length (element_textContent (repeated_spans ! 1)))"
    by code_simp
  have h2: "ranges_in_order delaware_spans \<and> (4::int) < 8 \<and> (0::nat) < 1 \<and>
    1 < length delaware_spans \<and>
    classify 4 8 (data_start (delaware_spans ! 0)) (data_end (delaware_spans ! 0)) = Some Contained"
    by code_simp
  from contained_no_later_splice [of governing_law_info ?a 4 8 repeated_spans False 1] h1
    contained_no_later_splice [of governing_law_info ?a 4 8 delaware_spans False _ 0 1] h2
  show ?thesis by code_simp
qed

text \<open>
  C3 as stated (after a Contained match no later span is spliced) fails when two spans
  carry the same offsets: both satisfy the Contained condition and both are spliced.
\<close>

theorem second_contained_span_spliced:
  "classify 4 8 (data_start (repeated_spans ! 0)) (data_end (repeated_spans ! 0)) = Some Contained \<and>
   map childNodes
     (fst (processContent (html_document repeated_spans [detected ''governing_law'' 4 8 ''laws''])
        example_catalog [''governing-law''] [])) =
   [[TextNode ''The '',
     contained_highlightSpan governing_law_info (detected ''governing_law'' 4 8 ''laws'') 4 ''laws'',
     TextNode '' o''],
    [TextNode ''The '',
     contained_highlightSpan governing_law_info (detected ''governing_law'' 4 8 ''laws'') 4 ''laws'',
     TextNode '' o'']]"
  by code_simp

section \<open>C4: the replacement element\<close>

text \<open>
  C4, as the code has it: whenever an iteration splices a span, the replacement keeps the
  span's attributes and offsets, and its children are, in order: for Contained, a text node
  with the text before the highlight (only if that text is not empty), one highlighted
  span whose first child is a text node holding \<open>original[start - elStart : end - elStart]\<close>
  and whose second child is the tooltip, and a text node with the text after the highlight
  (only if that text is not empty); for LeftOverlap the text node before (only if not
  empty) and the highlighted span, whose only child is a text node holding the rest of the
  text; for RightOverlap the highlighted span, whose only child is a text node holding the
  beginning of the text, and the text node after (only if not empty). The highlighted text
  is never empty, and the text before, the highlighted text and the text after
  concatenate to the span's text content before the splice. The text content of the
  highlighted span is the highlighted text in Cases 2 and 3, and the highlighted text
  followed by the clause name and the confidence of the tooltip in Case 1.
\<close>

theorem splice_replacement:
  assumes "process_element ci a start end el = (el', True, logs)"
  shows "attributes el' = attributes el \<and> data_start el' = data_start el \<and>
     data_end el' = data_end el \<and>
     (let original = element_textContent el;
          relStart = start - data_start el;
          relEnd = end - data_start el;
          len = int (length original)
      in case classify start end (data_start el) (data_end el) of
           None \<Rightarrow> False
         | Some Contained \<Rightarrow>
             slice original relStart relEnd \<noteq> [] \<and>
             slice original 0 relStart @ slice original relStart relEnd @
               slice original relEnd len = original \<and>
             childNodes el' =
               (if slice original 0 relStart = [] then []
                else [TextNode (slice original 0 relStart)]) @
               [Element ''span''
                  (highlight_attributes ci a start @
                   [(''data-confidence'', number_toString (confidence a))])
                  [TextNode (slice original relStart relEnd), tooltip ci a]] @
               (if slice original relEnd len = [] then []
                else [TextNode (slice original relEnd len)]) \<and>
             map textContent (element_children el') =
               [slice original relStart relEnd @
                name ci @ number_toString (confidence a) @ ''% confidence'']
         | Some LeftOverlap \<Rightarrow>
             slice original relStart len \<noteq> [] \<and>
             slice original 0 relStart @ slice original relStart len = original \<and>
             childNodes el' =
               (if slice original 0 relStart = [] then []
                else [TextNode (slice original 0 relStart)]) @
               [Element ''span'' (highlight_attributes ci a start)
                  [TextNode (slice original relStart len)]] \<and>
             map textContent (element_children el') = [slice original relStart len]
         | Some RightOverlap \<Rightarrow>
             slice original 0 relEnd \<noteq> [] \<and>
             slice original 0 relEnd @ slice original relEnd len = original \<and>
             childNodes el' =
               [Element ''span'' (highlight_attributes ci a start)
                  [TextNode (slice original 0 relEnd)]] @
               (if slice original relEnd len = [] then []
                else [TextNode (slice original relEnd len)]) \<and>
             map textContent (element_children el') = [slice original 0 relEnd])"
proof -
  from process_element_attributes [of ci a start "end" el] assms
  have keep: "attributes el' = attributes el \<and> data_start el' = data_start el \<and>
     data_end el' = data_end el" by simp
  show ?thesis
  proof (cases "classify start end (data_start el) (data_end el)")
    case None
    with process_element_found_classified [OF assms] show ?thesis by simp
  next
    case (Some c)
    show ?thesis
    proof (cases c)
      case Contained
      with Some process_element_Contained [OF _ assms] keep show ?thesis
        by (simp add: Let_def text_if_nonempty_def contained_highlightSpan_def
            element_children_def tooltip_textContent)
    next
      case LeftOverlap
      with Some process_element_LeftOverlap [OF _ assms] keep show ?thesis
        by (simp add: Let_def text_if_nonempty_def overlap_highlightSpan_def
            element_children_def)
    next
      case RightOverlap
      with Some process_element_RightOverlap [OF _ assms] keep show ?thesis
        by (simp add: Let_def text_if_nonempty_def overlap_highlightSpan_def
            element_children_def)
    qed
  qed
qed

theorem splice_replacement_witness:
  "fst (snd (process_element governing_law_info (detected ''governing_law'' 4 8 ''laws'') 4 8
               (text_span 0 10 ''The laws o''))) \<and>
   classify 4 8 0 10 = Some Contained \<and>
   slice ''The laws o'' 4 8 = ''laws'' \<and>
   map textContent
     (childNodes (fst (process_element governing_law_info (detected ''governing_law'' 4 8 ''laws'') 4 8
                         (text_span 0 10 ''The laws o'')))) =
     [''The '', ''lawsGoverning Law90% confidence'', '' o''] \<and>
   fst (snd (process_element governing_law_info (detected ''governing_law'' 0 10 ''The laws o'') 0 10
               (text_span 0 10 ''The laws o''))) \<and>
   map textContent
     (childNodes (fst (process_element governing_law_info
                         (detected ''governing_law'' 0 10 ''The laws o'') 0 10
                         (text_span 0 10 ''The laws o'')))) =
     [''The laws oGoverning Law90% confidence''] \<and>
   fst (snd (process_element governing_law_info (detected ''governing_law'' 4 12 ''laws of '') 4 12
               (text_span 0 10 ''The laws o''))) \<and>
   classify 4 12 0 10 = Some LeftOverlap \<and>
   childNodes (fst (process_element governing_law_info (detected ''governing_law'' 4 12 ''laws of '') 4 12
                      (text_span 0 10 ''The laws o''))) =
     [TextNode ''The '',
      Element ''span'' (highlight_attributes governing_law_info (detected ''governing_law'' 4 12 ''laws of '') 4)
        [TextNode ''laws o'']] \<and>
   fst (snd (process_element governing_law_info (detected ''governing_law'' 4 12 ''laws of '') 4 12
               (text_span 10 20 ''f Delaware''))) \<and>
   classify 4 12 10 20 = Some RightOverlap \<and>
   childNodes (fst (process_element governing_law_info (detected ''governing_law'' 4 12 ''laws of '') 4 12
                      (text_span 10 20 ''f Delaware''))) =
     [Element ''span'' (highlight_attributes governing_law_info (detected ''governing_law'' 4 12 ''laws of '') 4)
        [TextNode ''f ''],
      TextNode ''Delaware'']"
proof -
  let ?ci = governing_law_info
  have p: "process_element ci a s e el = (fst (process_element ci a s e el), True,
      snd (snd (process_element ci a s e el)))"
    if "fst (snd (process_element ci a s e el))" for ci a s e el
    using that by (cases "process_element ci a s e el") simp
  have h1: "fst (snd (process_element ?ci (detected ''governing_law'' 4 8 ''laws'') 4 8
               (text_span 0 10 ''The laws o'')))" by code_simp
  have h2: "fst (snd (process_element ?ci (detected ''governing_law'' 0 10 ''The laws o'') 0 10
               (text_span 0 10 ''The laws o'')))" by code_simp
  have h3: "fst (snd (process_element ?ci (detected ''governing_law'' 4 12 ''laws of '') 4 12
               (text_span 0 10 ''The laws o'')))" by code_simp
  have h4: "fst (snd (process_element ?ci (detected ''governing_law'' 4 12 ''laws of '') 4 12
               (text_span 10 20 ''f Delaware'')))" by code_simp
  from splice_replacement [OF p [OF h1]] splice_replacement [OF p [OF h2]]
    splice_replacement [OF p [OF h3]] splice_replacement [OF p [OF h4]]
  show ?thesis by code_simp
qed

text \<open>
  C4 as stated gives the highlighted span the text \<open>original[start - elStart : end - elStart]\<close>.
  In Case 1 the tooltip is appended inside the span, so the text of the span is longer.
  For the annotation \<open>[4, 8)\<close> on the span \<^verbatim>\<open>The laws o\<close> at \<open>[0, 10)\<close>, the slice is
  \<^verbatim>\<open>laws\<close> and the text content of the highlighted span is \<^verbatim>\<open>lawsGoverning Law90% confidence\<close>.
\<close>

theorem contained_span_text_includes_tooltip:
  "classify 4 8 (data_start (text_span 0 10 ''The laws o'')) (data_end (text_span 0 10 ''The laws o'')) =
     Some Contained \<and>
   map textContent
     (element_children
        (fst (process_element governing_law_info (detected ''governing_law'' 4 8 ''laws'') 4 8
                (text_span 0 10 ''The laws o'')))) =
     [''lawsGoverning Law90% confidence''] \<and>
   slice (element_textContent (text_span 0 10 ''The laws o''))
     (4 - data_start (text_span 0 10 ''The laws o''))
     (8 - data_start (text_span 0 10 ''The laws o'')) = ''laws'' \<and>
   element_textContent
     (fst (process_element governing_law_info (detected ''governing_law'' 4 8 ''laws'') 4 8
             (text_span 0 10 ''The laws o''))) =
     ''The lawsGoverning Law90% confidence o''"
  by code_simp

section \<open>C5: an annotation across two adjacent spans\<close>




section \<open>C6: ill-formed annotations are local\<close>

text \<open>
  C6, as the code has it: an annotation without position leaves the tree unchanged and logs
  the missing-position entry; an annotation with \<open>end \<le> start\<close> leaves the tree
  unchanged and, when its clause type has a catalog entry, logs the no-match entry; and
  removing an annotation of either kind from the detected list or from the user's list
  does not change the tree that the pass produces. The pass is a total function, so it
  always completes.
\<close>

theorem ill_formed_annotation_is_local:
  "(position a = None \<longrightarrow>
      process_annotation catalog doc a =
        (doc, [AnnotationMissingPosition (type a) (substring (selected_text a) 0 50)])) \<and>
   (position b = Some pos \<and> pend pos \<le> pstart pos \<longrightarrow>
      fst (process_annotation catalog doc b) = doc \<and>
      (catalog (convertClauseTypeToFrontendFormat (type b)) \<noteq> None \<longrightarrow>
         CouldNotFindElement (pstart pos) (pend pos) \<in> set (snd (process_annotation catalog doc b)))) \<and>
   (ill_formed c \<longrightarrow>
      fst (processContent (d\<lparr>clauses := xs @ c # ys\<rparr>) catalog activeFilters us) =
      fst (processContent (d\<lparr>clauses := xs @ ys\<rparr>) catalog activeFilters us) \<and>
      fst (processContent d catalog activeFilters (us1 @ c # us2)) =
      fst (processContent d catalog activeFilters (us1 @ us2)))"
proof (intro conjI impI)
  assume "position a = None"
  then show "process_annotation catalog doc a =
        (doc, [AnnotationMissingPosition (type a) (substring (selected_text a) 0 50)])"
    by (simp add: process_annotation_def)
next
  assume h: "position b = Some pos \<and> pend pos \<le> pstart pos"
  then have "ill_formed b" by (simp add: ill_formed_def)
  then show "fst (process_annotation catalog doc b) = doc"
    by (rule process_annotation_ill_formed)
next
  assume h: "position b = Some pos \<and> pend pos \<le> pstart pos"
    and "catalog (convertClauseTypeToFrontendFormat (type b)) \<noteq> None"
  then obtain ci where "catalog (convertClauseTypeToFrontendFormat (type b)) = Some ci" by blast
  with h show "CouldNotFindElement (pstart pos) (pend pos) \<in> set (snd (process_annotation catalog doc b))"
    by (simp add: process_annotation_degenerate_log)
next
  assume "ill_formed c"
  then show "fst (processContent (d\<lparr>clauses := xs @ c # ys\<rparr>) catalog activeFilters us) =
      fst (processContent (d\<lparr>clauses := xs @ ys\<rparr>) catalog activeFilters us)"
    by (rule processContent_remove(1) [where P = ill_formed]) (rule process_annotation_ill_formed)
next
  assume "ill_formed c"
  then show "fst (processContent d catalog activeFilters (us1 @ c # us2)) =
      fst (processContent d catalog activeFilters (us1 @ us2))"
    by (rule processContent_remove(2) [where P = ill_formed]) (rule process_annotation_ill_formed)
qed

theorem ill_formed_annotation_is_local_witness:
  "position (unpositioned ''governing_law'' ''laws'') = None \<and>
   process_annotation example_catalog delaware_spans (unpositioned ''governing_law'' ''laws'') =
     (delaware_spans, [AnnotationMissingPosition ''governing_law'' ''laws'']) \<and>
   position (detected ''governing_law'' 8 4 ''laws'') = Some \<lparr>pstart = 8, pend = 4\<rparr> \<and>
   pend \<lparr>pstart = 8, pend = 4\<rparr> \<le> pstart \<lparr>pstart = 8, pend = 4\<rparr> \<and>
   fst (process_annotation example_catalog delaware_spans (detected ''governing_law'' 8 4 ''laws'')) =
     delaware_spans \<and>
   example_catalog (convertClauseTypeToFrontendFormat (type (detected ''governing_law'' 8 4 ''laws''))) \<noteq> None \<and>
   CouldNotFindElement 8 4 \<in>
     set (snd (process_annotation example_catalog delaware_spans (detected ''governing_law'' 8 4 ''laws''))) \<and>
   ill_formed (detected ''governing_law'' 8 4 ''laws'') \<and>
   fst (processContent
          (html_document delaware_spans
             [detected ''governing_law'' 8 4 ''laws'', detected ''governing_law'' 4 8 ''laws''])
          example_catalog [''governing-law''] []) =
   fst (processContent (html_document delaware_spans [detected ''governing_law'' 4 8 ''laws''])
          example_catalog [''governing-law''] []) \<and>
   fst (processContent (html_document delaware_spans []) example_catalog [''governing-law'']
          [detected ''governing_law'' 8 4 ''laws'']) =
   fst (processContent (html_document delaware_spans []) example_catalog [''governing-law''] [])"
proof -
  let ?b = "detected ''governing_law'' 8 4 ''laws''"
  have h1: "position (unpositioned ''governing_law'' ''laws'') = None" by code_simp
  have h2: "position ?b = Some \<lparr>pstart = 8, pend = 4\<rparr> \<and>
    pend \<lparr>pstart = 8, pend = 4\<rparr> \<le> pstart \<lparr>pstart = 8, pend = 4\<rparr>" by code_simp
  have h3: "example_catalog (convertClauseTypeToFrontendFormat (type ?b)) \<noteq> None" by code_simp
  have h4: "ill_formed ?b" by code_simp
  have e1: "(html_document delaware_spans [])\<lparr>clauses := [] @ ?b # [detected ''governing_law'' 4 8 ''laws'']\<rparr> =
     html_document delaware_spans [?b, detected ''governing_law'' 4 8 ''laws'']"
    and e2: "(html_document delaware_spans [])\<lparr>clauses := [] @ [detected ''governing_law'' 4 8 ''laws'']\<rparr> =
     html_document delaware_spans [detected ''governing_law'' 4 8 ''laws'']"
    by (simp_all add: html_document_def)
  from ill_formed_annotation_is_local
    [where a = "unpositioned ''governing_law'' ''laws''" and catalog = example_catalog
       and doc = delaware_spans and b = ?b and pos = "\<lparr>pstart = 8, pend = 4\<rparr>" and c = ?b
       and d = "html_document delaware_spans []" and xs = "[]"
       and ys = "[detected ''governing_law'' 4 8 ''laws'']" and activeFilters = "[''governing-law'']"
       and us = "[]" and ?us1.0 = "[]" and ?us2.0 = "[]"]
    h1 h2 h3 h4
  show ?thesis unfolding e1 e2 by code_simp
qed

text \<open>
  C6 as stated promises at least one diagnostic for every annotation with \<open>end \<le> start\<close>.
  When the annotation passes the filter but its clause type has no catalog entry, the
  callback returns before any of its log calls: the log of the pass holds the count of
  visible annotations and nothing else.
\<close>

theorem degenerate_unmapped_no_diagnostic:
  "processContent (html_document delaware_spans [detected ''indemnity'' 8 4 ''laws''])
     example_catalog [''governing-law'', ''indemnity''] [] =
   (delaware_spans, [AnnotationsToHighlight 1])"
  by code_simp

section \<open>C7: attributes of the highlighted span\<close>

text \<open>
  C7, as the code has it: a spliced span has exactly one element child, the highlighted
  span, which carries the clause type and the identifier \<open>type-start\<close> in all three
  cases; in Case 1 it carries the annotation's confidence as well, whether the annotation
  is detected or the user's.
\<close>

theorem highlight_span_attributes:
  assumes "process_element ci a start end el = (el', True, logs)"
  shows "map (\<lambda>n. getAttribute n ''data-clause-type'') (element_children el') = [Some (type a)] \<and>
     map (\<lambda>n. getAttribute n ''data-annotation-id'') (element_children el') =
       [Some (type a @ ''-'' @ number_toString start)] \<and>
     (classify start end (data_start el) (data_end el) = Some Contained \<longrightarrow>
        map (\<lambda>n. getAttribute n ''data-confidence'') (element_children el') =
          [Some (number_toString (confidence a))])"
proof -
  from process_element_children [OF assms] obtain hl where
    "element_children el' =
     [if classify start end (data_start el) (data_end el) = Some Contained
      then contained_highlightSpan ci a start hl else overlap_highlightSpan ci a start hl]" ..
  then show ?thesis
    by (simp add: highlight_getAttribute annotationIdentifier_def)
qed

theorem highlight_span_attributes_witness:
  "process_element review_comments_info (addUserAnnotation ''laws'' 4 8) 4 8 (text_span 0 10 ''The laws o'') =
     ((text_span 0 10 ''The laws o'')
        \<lparr>childNodes := [TextNode ''The '',
           contained_highlightSpan review_comments_info (addUserAnnotation ''laws'' 4 8) 4 ''laws'',
           TextNode '' o'']\<rparr>,
      True, [FoundTextToHighlight ''laws'']) \<and>
   classify 4 8 (data_start (text_span 0 10 ''The laws o'')) (data_end (text_span 0 10 ''The laws o'')) =
     Some Contained \<and>
   getAttribute (contained_highlightSpan review_comments_info (addUserAnnotation ''laws'' 4 8) 4 ''laws'')
     ''data-clause-type'' = Some ''review-comments'' \<and>
   getAttribute (contained_highlightSpan review_comments_info (addUserAnnotation ''laws'' 4 8) 4 ''laws'')
     ''data-annotation-id'' = Some ''review-comments-4'' \<and>
   getAttribute (contained_highlightSpan review_comments_info (addUserAnnotation ''laws'' 4 8) 4 ''laws'')
     ''data-confidence'' = Some ''100''"
proof -
  have h: "process_element review_comments_info (addUserAnnotation ''laws'' 4 8) 4 8 (text_span 0 10 ''The laws o'') =
     ((text_span 0 10 ''The laws o'')
        \<lparr>childNodes := [TextNode ''The '',
           contained_highlightSpan review_comments_info (addUserAnnotation ''laws'' 4 8) 4 ''laws'',
           TextNode '' o'']\<rparr>,
      True, [FoundTextToHighlight ''laws''])" by code_simp
  from highlight_span_attributes [OF h] show ?thesis by code_simp
qed

text \<open>
  C7 as stated gives a user-authored highlight no confidence attribute. A user annotation
  contained in one span is rendered with \<^verbatim>\<open>data-confidence\<close> set to its fixed confidence
  of 100.
\<close>

theorem user_highlight_carries_confidence:
  "user (addUserAnnotation ''laws'' 4 8) \<and>
   map element_children
     (fst (processContent (html_document delaware_spans []) example_catalog [''review-comments'']
        [addUserAnnotation ''laws'' 4 8])) =
   [[contained_highlightSpan review_comments_info (addUserAnnotation ''laws'' 4 8) 4 ''laws''], []] \<and>
   getAttribute
     (contained_highlightSpan review_comments_info (addUserAnnotation ''laws'' 4 8) 4 ''laws'')
     ''data-confidence'' = Some ''100''"
  by code_simp

section \<open>C8: the clause-type converters are mutually inverse\<close>

text \<open>
  C8: on a backend (underscored) clause type that contains no hyphen, converting to the
  frontend encoding and back gives the same string; on a frontend (hyphenated) clause
  type that contains no underscore, converting to the backend encoding and back gives the
  same string. Both converters are total functions of their argument alone.
\<close>

theorem convertClauseType_roundtrip:
  "(CHR ''-'' \<notin> set t \<longrightarrow>
      convertClauseTypeToBackendFormat (convertClauseTypeToFrontendFormat t) = t) \<and>
   (CHR ''_'' \<notin> set u \<longrightarrow>
      convertClauseTypeToFrontendFormat (convertClauseTypeToBackendFormat u) = u)"
  unfolding convertClauseTypeToBackendFormat_def convertClauseTypeToFrontendFormat_def
  by (auto intro!: map_idI)

theorem convertClauseType_roundtrip_witness:
  "CHR ''-'' \<notin> set ''force_majeure'' \<and>
   convertClauseTypeToBackendFormat (convertClauseTypeToFrontendFormat ''force_majeure'') =
     ''force_majeure'' \<and>
   CHR ''_'' \<notin> set ''no-waiver'' \<and>
   convertClauseTypeToFrontendFormat (convertClauseTypeToBackendFormat ''no-waiver'') =
     ''no-waiver''"
  using convertClauseType_roundtrip [of "''force_majeure''" "''no-waiver''"]
  by simp

section \<open>C9: from a highlighted span back to its annotation\<close>

text \<open>
  C9, as the code has it: a click on the highlighted span built for an annotation returns
  the first annotation, detected ones before the user's, that has the same type and the
  same start offset; this is the annotation itself when no annotation before it in that
  order has the same type and start.
\<close>

theorem click_returns_first_match:
  assumes "position a = Some pos"
    and "target = contained_highlightSpan ci a (pstart pos) hl \<or>
         target = overlap_highlightSpan ci a (pstart pos) hl"
  shows "onClick document userAnnotations target =
       find (\<lambda>b. type b = type a \<and> map_option pstart (position b) = Some (pstart pos))
         (clauses document @ userAnnotations) \<and>
     (clauses document @ userAnnotations = xs @ a # ys \<and>
      (\<forall>b \<in> set xs. \<not> (type b = type a \<and> map_option pstart (position b) = Some (pstart pos))) \<longrightarrow>
      onClick document userAnnotations target = Some a)"
proof -
  let ?anns = "clauses document @ userAnnotations"
  let ?Q = "\<lambda>b. type b = type a \<and> map_option pstart (position b) = Some (pstart pos)"
  from assms(2) have at: "getAttribute target ''data-clause-type'' = Some (type a)"
    "getAttribute target ''data-annotation-id'' = Some (annotationIdentifier a (pstart pos))"
    "getAttribute target ''class'' = Some (highlight_className a)"
    by (auto simp: highlight_getAttribute)
  have "onClick document userAnnotations target =
     find (\<lambda>b. type b = type a \<and>
        type a @ ''-'' @ (case position b of None \<Rightarrow> ''undefined'' | Some p \<Rightarrow> number_toString (pstart p)) =
        annotationIdentifier a (pstart pos)) ?anns"
    by (simp add: onClick_def classList_def at highlight_has_class)
  also have "\<dots> = find ?Q ?anns"
    by (rule find_cong [OF refl]) (rule identifier_matches_iff)
  finally have first: "onClick document userAnnotations target = find ?Q ?anns" .
  have "onClick document userAnnotations target = Some a"
    if "?anns = xs @ a # ys" and "\<forall>b \<in> set xs. \<not> ?Q b"
  proof -
    from that(2) have "find ?Q xs = None" by (simp add: find_None_iff)
    with that(1) assms(1) first show ?thesis by (simp add: find_append_first)
  qed
  with first show ?thesis by blast
qed

theorem click_returns_first_match_witness:
  "position (detected ''governing_law'' 4 8 ''laws'') = Some \<lparr>pstart = 4, pend = 8\<rparr> \<and>
   clauses (html_document delaware_spans
              [detected ''governing_law'' 10 12 ''f '', detected ''governing_law'' 4 8 ''laws'']) @ [] =
     [detected ''governing_law'' 10 12 ''f ''] @ detected ''governing_law'' 4 8 ''laws'' # [] \<and>
   map_option pstart (position (detected ''governing_law'' 10 12 ''f '')) \<noteq> Some 4 \<and>
   onClick
     (html_document delaware_spans
        [detected ''governing_law'' 10 12 ''f '', detected ''governing_law'' 4 8 ''laws''])
     []
     (contained_highlightSpan governing_law_info (detected ''governing_law'' 4 8 ''laws'') 4 ''laws'') =
   Some (detected ''governing_law'' 4 8 ''laws'')"
proof -
  let ?a = "detected ''governing_law'' 4 8 ''laws''"
  let ?d = "html_document delaware_spans [detected ''governing_law'' 10 12 ''f '', ?a]"
  let ?t = "contained_highlightSpan governing_law_info ?a 4 ''laws''"
  have h1: "position ?a = Some \<lparr>pstart = 4, pend = 8\<rparr>" by code_simp
  have h2: "?t = contained_highlightSpan governing_law_info ?a (pstart \<lparr>pstart = 4, pend = 8\<rparr>) ''laws'' \<or>
    ?t = overlap_highlightSpan governing_law_info ?a (pstart \<lparr>pstart = 4, pend = 8\<rparr>) ''laws''"
    by simp
  have h3: "clauses ?d @ [] = [detected ''governing_law'' 10 12 ''f ''] @ ?a # []"
    by (simp add: html_document_def)
  have h4: "\<forall>b \<in> set [detected ''governing_law'' 10 12 ''f ''].
     \<not> (type b = type ?a \<and> map_option pstart (position b) = Some (pstart \<lparr>pstart = 4, pend = 8\<rparr>))"
    by (simp add: detected_def)
  from click_returns_first_match [OF h1 h2, where document = ?d and userAnnotations = "[]"
      and xs = "[detected ''governing_law'' 10 12 ''f '']" and ys = "[]"] h3 h4
  have "onClick ?d [] ?t = Some ?a" by blast
  moreover have "map_option pstart (position (detected ''governing_law'' 10 12 ''f '')) \<noteq> Some 4"
    by (simp add: detected_def)
  ultimately show ?thesis using h1 h3 by simp
qed

text \<open>
  C9 as stated fails when two annotations share type and start. Of two detected
  annotations \<open>[4, 12)\<close> and \<open>[4, 8)\<close> of one type, both are rendered; a click on the
  highlight of the second returns the first.
\<close>

theorem colliding_identifier_resolves_to_other:
  "map element_children
     (fst (processContent
        (html_document delaware_spans
           [detected ''governing_law'' 4 12 ''laws of '', detected ''governing_law'' 4 8 ''laws''])
        example_catalog [''governing-law''] [])) =
   [[contained_highlightSpan governing_law_info (detected ''governing_law'' 4 8 ''laws'') 4 ''laws''],
    [overlap_highlightSpan governing_law_info (detected ''governing_law'' 4 12 ''laws of '') 4 ''f '']] \<and>
   onClick
     (html_document delaware_spans
        [detected ''governing_law'' 4 12 ''laws of '', detected ''governing_law'' 4 8 ''laws''])
     []
     (contained_highlightSpan governing_law_info (detected ''governing_law'' 4 8 ''laws'') 4 ''laws'') =
   Some (detected ''governing_law'' 4 12 ''laws of '') \<and>
   detected ''governing_law'' 4 12 ''laws of '' \<noteq> detected ''governing_law'' 4 8 ''laws''"
  by code_simp

section \<open>C10: a clause type without catalog entry\<close>

text \<open>
  C10, as the code has it: an annotation that has a position and whose clause type, in the
  hyphenated encoding, has no catalog entry leaves the tree unchanged and logs nothing, and
  removing it from the detected list or from the user's list does not change the tree that
  the pass produces.
\<close>

theorem unmapped_type_is_skipped_silently:
  assumes "position a = Some pos"
    and "catalog (convertClauseTypeToFrontendFormat (type a)) = None"
  shows "process_annotation catalog doc a = (doc, []) \<and>
      fst (processContent (d\<lparr>clauses := xs @ a # ys\<rparr>) catalog activeFilters us) =
      fst (processContent (d\<lparr>clauses := xs @ ys\<rparr>) catalog activeFilters us) \<and>
      fst (processContent d catalog activeFilters (us1 @ a # us2)) =
      fst (processContent d catalog activeFilters (us1 @ us2))"
proof -
  let ?P = "\<lambda>b. catalog (convertClauseTypeToFrontendFormat (type b)) = None"
  have inert: "\<And>b doc. ?P b \<Longrightarrow> fst (process_annotation catalog doc b) = doc"
    by (rule process_annotation_unmapped)
  from assms have "process_annotation catalog doc a = (doc, [])"
    by (simp add: process_annotation_def)
  moreover from assms(2) have "fst (processContent (d\<lparr>clauses := xs @ a # ys\<rparr>) catalog activeFilters us) =
      fst (processContent (d\<lparr>clauses := xs @ ys\<rparr>) catalog activeFilters us)"
    by (rule processContent_remove(1) [where P = ?P]) (rule inert)
  moreover from assms(2) have "fst (processContent d catalog activeFilters (us1 @ a # us2)) =
      fst (processContent d catalog activeFilters (us1 @ us2))"
    by (rule processContent_remove(2) [where P = ?P]) (rule inert)
  ultimately show ?thesis by simp
qed

theorem unmapped_type_is_skipped_silently_witness:
  "position (detected ''indemnity'' 4 8 ''laws'') = Some \<lparr>pstart = 4, pend = 8\<rparr> \<and>
   example_catalog (convertClauseTypeToFrontendFormat (type (detected ''indemnity'' 4 8 ''laws''))) = None \<and>
   process_annotation example_catalog delaware_spans (detected ''indemnity'' 4 8 ''laws'') =
     (delaware_spans, []) \<and>
   fst (processContent
          (html_document delaware_spans
             [detected ''indemnity'' 4 8 ''laws'', detected ''governing_law'' 4 8 ''laws''])
          example_catalog [''governing-law'', ''indemnity''] []) =
   fst (processContent (html_document delaware_spans [detected ''governing_law'' 4 8 ''laws''])
          example_catalog [''governing-law'', ''indemnity''] [])"
proof -
  let ?a = "detected ''indemnity'' 4 8 ''laws''"
  have h1: "position ?a = Some \<lparr>pstart = 4, pend = 8\<rparr>" by code_simp
  have h2: "example_catalog (convertClauseTypeToFrontendFormat (type ?a)) = None" by code_simp
  have e1: "(html_document delaware_spans [])\<lparr>clauses := [] @ ?a # [detected ''governing_law'' 4 8 ''laws'']\<rparr> =
     html_document delaware_spans [?a, detected ''governing_law'' 4 8 ''laws'']"
    and e2: "(html_document delaware_spans [])\<lparr>clauses := [] @ [detected ''governing_law'' 4 8 ''laws'']\<rparr> =
     html_document delaware_spans [detected ''governing_law'' 4 8 ''laws'']"
    by (simp_all add: html_document_def)
  from unmapped_type_is_skipped_silently
    [where catalog = example_catalog and a = ?a and doc = delaware_spans
       and d = "html_document delaware_spans []" and xs = "[]"
       and ys = "[detected ''governing_law'' 4 8 ''laws'']"
       and activeFilters = "[''governing-law'', ''indemnity'']" and us = "[]"
       and ?us1.0 = "[]" and ?us2.0 = "[]", OF h1 h2]
    h1 h2
  show ?thesis unfolding e1 e2 by simp
qed

text \<open>
  C10 as stated promises silence for every annotation whose type has no catalog entry. The
  position is checked first: without position such an annotation logs the
  missing-position entry.
\<close>

theorem unpositioned_unmapped_logs_diagnostic:
  "example_catalog (convertClauseTypeToFrontendFormat ''indemnity'') = None \<and>
   processContent (html_document delaware_spans [unpositioned ''indemnity'' ''laws''])
     example_catalog [''governing-law'', ''indemnity''] [] =
   (delaware_spans, [AnnotationsToHighlight 1, AnnotationMissingPosition ''indemnity'' ''laws''])"
  by code_simp

end
